theory Spec2Isabelle
  imports Main
begin

section \<open>UE session store: data model\<close>

text \<open>
  The repository keeps UE session records in Redis under the key \<open>sess:<tmsi>\<close> and two
  reverse indexes, Redis sets under \<open>idx:imsi:<imsi>\<close> and \<open>idx:msisdn:<msisdn>\<close>.
  A \<open>time.Time\<close> is an integer instant whose zero value is \<open>0\<close>; a \<open>time.Duration\<close>
  is a signed integer. Go strings are byte strings, so \<open>len\<close> is \<open>length\<close>.
  A nil slice is \<open>None\<close>, and a pointer argument that may be nil is an option.
\<close>

type_synonym time = int
type_synonym duration = int

definition IsZero :: "time \<Rightarrow> bool" where
  "IsZero t = (t = 0)"

record SecurityContext =
  KAMF :: string
  Algorithm :: string
  KeySetID :: string
  NextHopChainingCount :: int

record Session =
  TMSI :: string
  IMSI :: string
  MSISDN :: string
  AttachTime :: time
  LastUpdate :: time
  GNBID :: string
  TAI :: string
  UEState :: string
  Capabilities :: "string list option"
  SecurityCtx :: SecurityContext

record SessionConfig =
  DefaultTTL :: duration
  MaxTTL :: duration
  MinTTL :: duration

text \<open>
  The error values of package \<open>domain\<close>: \<open>ValidationError\<close> carries the field and the
  message, \<open>Errorf\<close> is an error built by \<open>fmt.Errorf\<close> (opaque but for its message),
  \<open>Panic\<close> a nil dereference.
\<close>

datatype error =
    ValidationError string string
  | NotFoundError string
  | ExpiredError string
  | Errorf string
  | Panic string

definition ErrInvalidTMSI :: error where
  "ErrInvalidTMSI = ValidationError ''tmsi'' ''TMSI is required and must be valid''"

definition ErrInvalidIMSI :: error where
  "ErrInvalidIMSI = ValidationError ''imsi'' ''IMSI is required and must be valid''"

definition ErrInvalidMSISDN :: error where
  "ErrInvalidMSISDN = ValidationError ''msisdn'' ''MSISDN is required and must be valid''"

definition ErrSessionNotFound :: error where
  "ErrSessionNotFound = NotFoundError ''session''"

definition ErrSessionExpired :: error where
  "ErrSessionExpired = ExpiredError ''session''"

section \<open>The Redis store\<close>

text \<open>
  One keyspace from key strings to a value with the time-to-live last requested for it.
  A string value is the JSON text of a session; \<open>json.Marshal\<close> followed by
  \<open>json.Unmarshal\<close> is taken to give the record back, so the value is kept as the
  record itself. That holds for records whose strings are valid UTF-8 and whose
  timestamps have a year from 0 to 9999; the store with a clock, further down, carries
  the round trip out. A set value lists its members without repetition, in insertion
  order, and \<open>SMEMBERS\<close> answers in that order, where Redis promises none.
  This store has no clock: a key is live while it is present, which describes a run short
  of the shortest time-to-live. The store with a clock reads the second component as a
  deadline and lets keys expire. Commands never fail for network reasons; the only command
  error is \<open>WRONGTYPE\<close>, and a missing key answers \<open>redis.Nil\<close>.
\<close>

datatype rvalue = RString Session | RSet "string list"

type_synonym redis = "string \<rightharpoonup> rvalue \<times> duration option"

datatype cmd =
    CmdSet string Session duration
  | CmdGet string
  | CmdDel string
  | CmdSAdd string string
  | CmdSRem string string
  | CmdSMembers string
  | CmdExpire string duration

datatype reply =
    RedisNil
  | WrongType
  | StatusOK
  | IntReply nat
  | BulkReply Session
  | MembersReply "string list"

text \<open>
  \<open>SET\<close> with a positive expiration stores the key with that time-to-live, with
  \<open>KeepTTL = -1\<close> it keeps the old one, otherwise the key gets none. \<open>EXPIRE\<close> with a
  non-positive time-to-live deletes the key. \<open>SREM\<close> of the last member deletes the set.
\<close>

fun exec_cmd :: "redis \<Rightarrow> cmd \<Rightarrow> redis \<times> reply" where
  "exec_cmd st (CmdSet k v d) =
     (st(k \<mapsto> (RString v,
         if 0 < d then Some d
         else if d = -1 then (case st k of None \<Rightarrow> None | Some (_, t) \<Rightarrow> t)
         else None)),
      StatusOK)"
| "exec_cmd st (CmdGet k) =
     (st, case st k of
            None \<Rightarrow> RedisNil
          | Some (RString v, _) \<Rightarrow> BulkReply v
          | Some (RSet _, _) \<Rightarrow> WrongType)"
| "exec_cmd st (CmdDel k) =
     (st(k := None), IntReply (if st k = None then 0 else 1))"
| "exec_cmd st (CmdSAdd k m) =
     (case st k of
        None \<Rightarrow> (st(k \<mapsto> (RSet [m], None)), IntReply 1)
      | Some (RSet ms, t) \<Rightarrow>
          if m \<in> set ms then (st, IntReply 0)
          else (st(k \<mapsto> (RSet (ms @ [m]), t)), IntReply 1)
      | Some (RString _, _) \<Rightarrow> (st, WrongType))"
| "exec_cmd st (CmdSRem k m) =
     (case st k of
        None \<Rightarrow> (st, IntReply 0)
      | Some (RSet ms, t) \<Rightarrow>
          if m \<in> set ms
          then ((if removeAll m ms = [] then st(k := None)
                 else st(k \<mapsto> (RSet (removeAll m ms), t))), IntReply 1)
          else (st, IntReply 0)
      | Some (RString _, _) \<Rightarrow> (st, WrongType))"
| "exec_cmd st (CmdSMembers k) =
     (st, case st k of
            None \<Rightarrow> MembersReply []
          | Some (RSet ms, _) \<Rightarrow> MembersReply ms
          | Some (RString _, _) \<Rightarrow> WrongType)"
| "exec_cmd st (CmdExpire k d) =
     (case st k of
        None \<Rightarrow> (st, IntReply 0)
      | Some (v, _) \<Rightarrow>
          ((if 0 < d then st(k \<mapsto> (v, Some d)) else st(k := None)), IntReply 1))"

text \<open>
  A pipeline sends its commands as one batch; the store runs them one after the other,
  with no transaction around them. \<open>Exec\<close> returns every reply and, as its error,
  the first reply that is an error (\<open>redis.Nil\<close> counts as one).
\<close>

fun pipe_Exec :: "redis \<Rightarrow> cmd list \<Rightarrow> redis \<times> reply list" where
  "pipe_Exec st [] = (st, [])"
| "pipe_Exec st (c # cs) =
     (case exec_cmd st c of (st1, r) \<Rightarrow>
        (case pipe_Exec st1 cs of (st2, rs) \<Rightarrow> (st2, r # rs)))"

definition is_err :: "reply \<Rightarrow> bool" where
  "is_err r = (r = RedisNil \<or> r = WrongType)"

fun cmdsFirstErr :: "reply list \<Rightarrow> reply option" where
  "cmdsFirstErr [] = None"
| "cmdsFirstErr (r # rs) = (if is_err r then Some r else cmdsFirstErr rs)"

subsection \<open>Key scheme (database.RedisKeys)\<close>

definition SessionKey :: "string \<Rightarrow> string" where
  "SessionKey tmsi = ''sess:'' @ tmsi"

definition IMSIIndexKey :: "string \<Rightarrow> string" where
  "IMSIIndexKey imsi = ''idx:imsi:'' @ imsi"

definition MSISDNIndexKey :: "string \<Rightarrow> string" where
  "MSISDNIndexKey msisdn = ''idx:msisdn:'' @ msisdn"

section \<open>SessionRepository\<close>

fun validateSession :: "Session option \<Rightarrow> error option" where
  "validateSession None = Some (Errorf ''session cannot be nil'')"
| "validateSession (Some session) =
     (if TMSI session = [] then Some ErrInvalidTMSI
      else if IMSI session = [] then Some ErrInvalidIMSI
      else if MSISDN session = [] then Some ErrInvalidMSISDN
      else None)"

text \<open>
  \<open>Create\<close> reads the clock twice (\<open>now1\<close> only when the attach time is unset). It
  writes through the caller's pointer, so a success returns the record as the caller
  then holds it. There is no check for an existing record.
\<close>

definition Create ::
  "SessionConfig \<Rightarrow> time \<Rightarrow> time \<Rightarrow> redis \<Rightarrow> Session option \<Rightarrow> (error + Session) \<times> redis" where
  "Create cfg now1 now2 st sp =
     (case validateSession sp of
        Some err \<Rightarrow> (Inl err, st)
      | None \<Rightarrow>
         (case sp of
            None \<Rightarrow> (Inl (Panic ''nil pointer dereference''), st)
          | Some s0 \<Rightarrow>
             (let s1 = (if IsZero (AttachTime s0) then s0\<lparr>AttachTime := now1\<rparr> else s0);
                  session = s1\<lparr>LastUpdate := now2\<rparr>
              in case pipe_Exec st
                   [CmdSet (SessionKey (TMSI session)) session (DefaultTTL cfg),
                    CmdSAdd (IMSIIndexKey (IMSI session)) (TMSI session),
                    CmdExpire (IMSIIndexKey (IMSI session)) (DefaultTTL cfg),
                    CmdSAdd (MSISDNIndexKey (MSISDN session)) (TMSI session),
                    CmdExpire (MSISDNIndexKey (MSISDN session)) (DefaultTTL cfg)] of
                 (st', rs) \<Rightarrow>
                   (case cmdsFirstErr rs of
                      Some _ \<Rightarrow> (Inl (Errorf ''failed to create session''), st')
                    | None \<Rightarrow> (Inr session, st')))))"

text \<open>
  \<open>Get\<close> calls \<open>RenewTTL\<close> after a successful read, and \<open>RenewTTL\<close> starts by calling
  \<open>Get\<close>. The fuel \<open>n\<close> bounds the depth of this mutual recursion; \<open>None\<close> means the
  call has not returned within that depth. The renewal's error is only printed, so
  \<open>Get\<close> drops it.
\<close>

definition RenewTTL_pipeline :: "SessionConfig \<Rightarrow> redis \<Rightarrow> string \<Rightarrow> Session \<Rightarrow> (error + unit) \<times> redis" where
  "RenewTTL_pipeline cfg st tmsi session =
     (case pipe_Exec st
        [CmdExpire (SessionKey tmsi) (DefaultTTL cfg),
         CmdExpire (IMSIIndexKey (IMSI session)) (DefaultTTL cfg),
         CmdExpire (MSISDNIndexKey (MSISDN session)) (DefaultTTL cfg)] of
      (st', rs) \<Rightarrow>
        (case cmdsFirstErr rs of
           Some _ \<Rightarrow> (Inl (Errorf ''failed to renew TTL''), st')
         | None \<Rightarrow> (Inr (), st')))"

fun Get :: "SessionConfig \<Rightarrow> nat \<Rightarrow> redis \<Rightarrow> string \<Rightarrow> ((error + Session) \<times> redis) option"
and RenewTTL :: "SessionConfig \<Rightarrow> nat \<Rightarrow> redis \<Rightarrow> string \<Rightarrow> ((error + unit) \<times> redis) option"
where
  "Get cfg 0 st tmsi = None"
| "Get cfg (Suc n) st tmsi =
     (if tmsi = [] then Some (Inl ErrInvalidTMSI, st)
      else case exec_cmd st (CmdGet (SessionKey tmsi)) of
          (st1, RedisNil) \<Rightarrow> Some (Inl ErrSessionNotFound, st1)
        | (st1, BulkReply session) \<Rightarrow>
            (case RenewTTL cfg n st1 tmsi of
               None \<Rightarrow> None
             | Some (_, st2) \<Rightarrow> Some (Inr session, st2))
        | (st1, _) \<Rightarrow> Some (Inl (Errorf ''failed to get session''), st1))"
| "RenewTTL cfg 0 st tmsi = None"
| "RenewTTL cfg (Suc n) st tmsi =
     (if tmsi = [] then Some (Inl ErrInvalidTMSI, st)
      else case Get cfg n st tmsi of
          None \<Rightarrow> None
        | Some (Inl err, st1) \<Rightarrow> Some (Inl err, st1)
        | Some (Inr session, st1) \<Rightarrow> Some (RenewTTL_pipeline cfg st1 tmsi session))"

text \<open>
  \<open>Update\<close> and \<open>Delete\<close> look the record up with \<open>Get\<close> and then send one pipeline.
\<close>

definition Update_pipeline ::
  "SessionConfig \<Rightarrow> time \<Rightarrow> redis \<Rightarrow> Session \<Rightarrow> Session \<Rightarrow> (error + Session) \<times> redis" where
  "Update_pipeline cfg now st existingSession s0 =
     (let session = s0\<lparr>LastUpdate := now, AttachTime := AttachTime existingSession\<rparr>
      in case pipe_Exec st
           ([CmdSet (SessionKey (TMSI session)) session (DefaultTTL cfg)]
            @ (if IMSI existingSession \<noteq> IMSI session
               then [CmdSRem (IMSIIndexKey (IMSI existingSession)) (TMSI session),
                     CmdSAdd (IMSIIndexKey (IMSI session)) (TMSI session),
                     CmdExpire (IMSIIndexKey (IMSI session)) (DefaultTTL cfg)]
               else [])
            @ (if MSISDN existingSession \<noteq> MSISDN session
               then [CmdSRem (MSISDNIndexKey (MSISDN existingSession)) (TMSI session),
                     CmdSAdd (MSISDNIndexKey (MSISDN session)) (TMSI session),
                     CmdExpire (MSISDNIndexKey (MSISDN session)) (DefaultTTL cfg)]
               else [])) of
         (st', rs) \<Rightarrow>
           (case cmdsFirstErr rs of
              Some _ \<Rightarrow> (Inl (Errorf ''failed to update session''), st')
            | None \<Rightarrow> (Inr session, st')))"

definition Update ::
  "SessionConfig \<Rightarrow> time \<Rightarrow> nat \<Rightarrow> redis \<Rightarrow> Session option \<Rightarrow> ((error + Session) \<times> redis) option" where
  "Update cfg now n st sp =
     (case validateSession sp of
        Some err \<Rightarrow> Some (Inl err, st)
      | None \<Rightarrow>
         (case sp of
            None \<Rightarrow> Some (Inl (Panic ''nil pointer dereference''), st)
          | Some s0 \<Rightarrow>
             (case Get cfg n st (TMSI s0) of
                None \<Rightarrow> None
              | Some (Inl err, st1) \<Rightarrow> Some (Inl err, st1)
              | Some (Inr existingSession, st1) \<Rightarrow>
                  Some (Update_pipeline cfg now st1 existingSession s0))))"

definition Delete_pipeline :: "redis \<Rightarrow> string \<Rightarrow> Session \<Rightarrow> (error + unit) \<times> redis" where
  "Delete_pipeline st tmsi session =
     (case pipe_Exec st
        [CmdDel (SessionKey tmsi),
         CmdSRem (IMSIIndexKey (IMSI session)) tmsi,
         CmdSRem (MSISDNIndexKey (MSISDN session)) tmsi] of
      (st', rs) \<Rightarrow>
        (case cmdsFirstErr rs of
           Some _ \<Rightarrow> (Inl (Errorf ''failed to delete session''), st')
         | None \<Rightarrow> (Inr (), st')))"

definition Delete ::
  "SessionConfig \<Rightarrow> nat \<Rightarrow> redis \<Rightarrow> string \<Rightarrow> ((error + unit) \<times> redis) option" where
  "Delete cfg n st tmsi =
     (if tmsi = [] then Some (Inl ErrInvalidTMSI, st)
      else case Get cfg n st tmsi of
          None \<Rightarrow> None
        | Some (Inl err, st1) \<Rightarrow> Some (Inl err, st1)
        | Some (Inr session, st1) \<Rightarrow> Some (Delete_pipeline st1 tmsi session))"

text \<open>
  \<open>QueryByMultiple\<close> reads every record of the list in one pipeline of \<open>GET\<close>s and keeps
  those that exist. For a missing record it starts \<open>cleanupExpiredIndex\<close> in a goroutine
  of its own and goes on; the result does not wait for it. The reads leave the store as
  it is, so the queries return their result only.
\<close>

fun collect_sessions :: "reply list \<Rightarrow> string list \<Rightarrow> Session list \<Rightarrow> error + Session list" where
  "collect_sessions [] ts acc = Inr acc"
| "collect_sessions (r # rs) [] acc = Inr acc"
| "collect_sessions (RedisNil # rs) (t # ts) acc = collect_sessions rs ts acc"
| "collect_sessions (BulkReply session # rs) (t # ts) acc = collect_sessions rs ts (acc @ [session])"
| "collect_sessions (r # rs) (t # ts) acc = Inl (Errorf (''failed to get session '' @ t))"

definition QueryByMultiple :: "redis \<Rightarrow> string list \<Rightarrow> error + Session list" where
  "QueryByMultiple st tmsiList =
     (if tmsiList = [] then Inr []
      else case pipe_Exec st (map (\<lambda>tmsi. CmdGet (SessionKey tmsi)) tmsiList) of
        (st', cmds) \<Rightarrow>
          (case cmdsFirstErr cmds of
             Some WrongType \<Rightarrow> Inl (Errorf ''failed to query multiple sessions'')
           | _ \<Rightarrow> collect_sessions cmds tmsiList []))"

definition QueryByIMSI :: "redis \<Rightarrow> string \<Rightarrow> error + Session list" where
  "QueryByIMSI st imsi =
     (if imsi = [] then Inl ErrInvalidIMSI
      else case exec_cmd st (CmdSMembers (IMSIIndexKey imsi)) of
          (st', MembersReply tmsiList) \<Rightarrow>
            (if tmsiList = [] then Inr [] else QueryByMultiple st' tmsiList)
        | (st', _) \<Rightarrow> Inl (Errorf ''failed to query by IMSI''))"

definition QueryByMSISDN :: "redis \<Rightarrow> string \<Rightarrow> error + Session list" where
  "QueryByMSISDN st msisdn =
     (if msisdn = [] then Inl ErrInvalidMSISDN
      else case exec_cmd st (CmdSMembers (MSISDNIndexKey msisdn)) of
          (st', MembersReply tmsiList) \<Rightarrow>
            (if tmsiList = [] then Inr [] else QueryByMultiple st' tmsiList)
        | (st', _) \<Rightarrow> Inl (Errorf ''failed to query by MSISDN''))"

definition cleanupExpiredIndex :: "SessionConfig \<Rightarrow> nat \<Rightarrow> redis \<Rightarrow> string \<Rightarrow> redis option" where
  "cleanupExpiredIndex cfg n st tmsi =
     (case Get cfg n st tmsi of
        None \<Rightarrow> None
      | Some (Inl err, st1) \<Rightarrow> Some st1
      | Some (Inr session, st1) \<Rightarrow>
          Some (fst (pipe_Exec st1
            [CmdSRem (IMSIIndexKey (IMSI session)) tmsi,
             CmdSRem (MSISDNIndexKey (MSISDN session)) tmsi])))"

section \<open>SessionService\<close>

fun validateSessionForCreation :: "Session option \<Rightarrow> error option" where
  "validateSessionForCreation None = Some (Errorf ''session cannot be nil'')"
| "validateSessionForCreation (Some session) =
     (if TMSI session = [] then Some ErrInvalidTMSI
      else if IMSI session = [] then Some ErrInvalidIMSI
      else if MSISDN session = [] then Some ErrInvalidMSISDN
      else if length (TMSI session) < 4
        then Some (Errorf ''TMSI must be at least 4 characters long'')
      else if length (IMSI session) < 14
        then Some (Errorf ''IMSI must be at least 14 characters long'')
      else if length (MSISDN session) < 10
        then Some (Errorf ''MSISDN must be at least 10 characters long'')
      else None)"

fun validateSessionForUpdate :: "Session option \<Rightarrow> error option" where
  "validateSessionForUpdate None = Some (Errorf ''session cannot be nil'')"
| "validateSessionForUpdate (Some session) =
     (if TMSI session = [] then Some ErrInvalidTMSI
      else if IMSI session = [] then Some ErrInvalidIMSI
      else if MSISDN session = [] then Some ErrInvalidMSISDN
      else None)"

definition CreateSession ::
  "SessionConfig \<Rightarrow> time \<Rightarrow> time \<Rightarrow> nat \<Rightarrow> redis \<Rightarrow> Session option
     \<Rightarrow> ((error + Session) \<times> redis) option" where
  "CreateSession cfg now1 now2 n st sp =
     (case validateSessionForCreation sp of
        Some err \<Rightarrow> Some (Inl err, st)
      | None \<Rightarrow>
         (case sp of
            None \<Rightarrow> Some (Inl (Panic ''nil pointer dereference''), st)
          | Some s0 \<Rightarrow>
             (case Get cfg n st (TMSI s0) of
                None \<Rightarrow> None
              | Some (Inr existingSession, st1) \<Rightarrow>
                  Some (Inl (Errorf (''session with TMSI '' @ TMSI s0 @ '' already exists'')), st1)
              | Some (Inl err, st1) \<Rightarrow>
                  (let s1 = (if UEState s0 = [] then s0\<lparr>UEState := ''REGISTERED''\<rparr> else s0);
                       s2 = (if Capabilities s1 = None then s1\<lparr>Capabilities := Some []\<rparr> else s1)
                   in Some (Create cfg now1 now2 st1 (Some s2))))))"

definition UpdateSession ::
  "SessionConfig \<Rightarrow> time \<Rightarrow> nat \<Rightarrow> redis \<Rightarrow> Session option
     \<Rightarrow> ((error + Session) \<times> redis) option" where
  "UpdateSession cfg now n st sp =
     (case validateSessionForUpdate sp of
        Some err \<Rightarrow> Some (Inl err, st)
      | None \<Rightarrow>
         (case sp of
            None \<Rightarrow> Some (Inl (Panic ''nil pointer dereference''), st)
          | Some s0 \<Rightarrow>
             (case Get cfg n st (TMSI s0) of
                None \<Rightarrow> None
              | Some (Inl err, st1) \<Rightarrow> Some (Inl err, st1)
              | Some (Inr existingSession, st1) \<Rightarrow>
                  Update cfg now n st1 (Some (s0\<lparr>AttachTime := AttachTime existingSession\<rparr>)))))"

section \<open>Reading the store\<close>

definition record_of :: "redis \<Rightarrow> string \<Rightarrow> Session option" where
  "record_of st tmsi =
     (case st (SessionKey tmsi) of Some (RString s, _) \<Rightarrow> Some s | _ \<Rightarrow> None)"

definition index_members :: "redis \<Rightarrow> string \<Rightarrow> string list" where
  "index_members st k = (case st k of Some (RSet ms, _) \<Rightarrow> ms | _ \<Rightarrow> [])"

text \<open>
  The keyspace is well typed when exactly the session keys hold strings. The index
  invariant: the TMSI of every live record is a member of the index sets of the record's
  own IMSI and MSISDN.
\<close>

definition well_typed :: "redis \<Rightarrow> bool" where
  "well_typed st =
     (\<forall>k v t. st k = Some (v, t) \<longrightarrow> ((\<exists>s. v = RString s) \<longleftrightarrow> (\<exists>tmsi. k = SessionKey tmsi)))"

definition index_inv :: "redis \<Rightarrow> bool" where
  "index_inv st =
     (\<forall>tmsi s. record_of st tmsi = Some s \<longrightarrow>
        tmsi \<in> set (index_members st (IMSIIndexKey (IMSI s))) \<and>
        tmsi \<in> set (index_members st (MSISDNIndexKey (MSISDN s))))"

section \<open>The store with a clock\<close>







definition alive :: "time \<Rightarrow> redis \<Rightarrow> redis" where
  "alive now st =
     (\<lambda>k. case st k of
            Some (v, Some e) \<Rightarrow> if e < now then None else Some (v, Some e)
          | x \<Rightarrow> x)"





subsection \<open>The JSON round trip\<close>







subsection \<open>The repository on the store with a clock\<close>








subsection \<open>Stores reached by calls made one after the other\<close>








section \<open>Example data\<close>

text \<open>
  The configuration and the session of the repository's own tests, and the store after
  creating that session in an empty store.
\<close>

definition test_config :: SessionConfig where
  "test_config = \<lparr>DefaultTTL = 1800000000000, MaxTTL = 86400000000000, MinTTL = 60000000000\<rparr>"

definition test_session :: Session where
  "test_session =
     \<lparr>TMSI = ''12345678'', IMSI = ''123456789012345'', MSISDN = ''1234567890'',
      AttachTime = 0, LastUpdate = 0, GNBID = [], TAI = [], UEState = [],
      Capabilities = None,
      SecurityCtx = \<lparr>KAMF = [], Algorithm = [], KeySetID = [], NextHopChainingCount = 0\<rparr>\<rparr>"

definition created_store :: redis where
  "created_store = snd (Create test_config 1000 1001 Map.empty (Some test_session))"

definition short_imsi_session :: Session where
  "short_imsi_session = test_session\<lparr>IMSI := ''123''\<rparr>"

definition moved_session :: Session where
  "moved_session = test_session\<lparr>IMSI := ''999999999999999''\<rparr>"

text \<open>The store after a second \<open>Create\<close> for the same TMSI, with another IMSI.\<close>

definition overwritten_store :: redis where
  "overwritten_store = snd (Create test_config 2000 2001 created_store (Some moved_session))"

definition second_session :: Session where
  "second_session = test_session\<lparr>TMSI := ''87654321'', MSISDN := ''0987654321''\<rparr>"

text \<open>
  Two sessions of one IMSI were created and the record of the first is gone since
  (a \<open>DEL\<close> of its key alone, as its expiry would leave the store).
\<close>

definition stale_store :: redis where
  "stale_store =
     fst (exec_cmd (snd (Create test_config 2000 2001 created_store (Some second_session)))
            (CmdDel (SessionKey ''12345678'')))"









section \<open>Keys\<close>

lemma SessionKey_inj [simp]: "(SessionKey a = SessionKey b) = (a = b)"
  by (simp add: SessionKey_def)

lemma IMSIIndexKey_inj [simp]: "(IMSIIndexKey a = IMSIIndexKey b) = (a = b)"
  by (simp add: IMSIIndexKey_def)

lemma MSISDNIndexKey_inj [simp]: "(MSISDNIndexKey a = MSISDNIndexKey b) = (a = b)"
  by (simp add: MSISDNIndexKey_def)

lemma keys_distinct [simp]:
  "SessionKey a \<noteq> IMSIIndexKey b" "SessionKey a \<noteq> MSISDNIndexKey c"
  "IMSIIndexKey b \<noteq> SessionKey a" "MSISDNIndexKey c \<noteq> SessionKey a"
  "IMSIIndexKey b \<noteq> MSISDNIndexKey c" "MSISDNIndexKey c \<noteq> IMSIIndexKey b"
  by (simp_all add: SessionKey_def IMSIIndexKey_def MSISDNIndexKey_def)

section \<open>Get and RenewTTL call each other without end\<close>

text \<open>
  On a live record \<open>Get\<close> reaches \<open>RenewTTL\<close>, which calls \<open>Get\<close> on the same key of the
  same store before it sends anything. No depth is enough for either to return.
\<close>

lemma Get_RenewTTL_live_diverge:
  assumes "tmsi \<noteq> []" and "st (SessionKey tmsi) = Some (RString s, ttl)"
  shows "Get cfg n st tmsi = None \<and> RenewTTL cfg n st tmsi = None"
proof (induction n)
  case 0
  show ?case by simp
next
  case (Suc n)
  with assms show ?case by simp
qed

lemma record_of_SomeD:
  "record_of st tmsi = Some s \<Longrightarrow> \<exists>ttl. st (SessionKey tmsi) = Some (RString s, ttl)"
  by (auto simp: record_of_def split: option.splits rvalue.splits)

lemma Get_absent:
  "tmsi \<noteq> [] \<Longrightarrow> st (SessionKey tmsi) = None \<Longrightarrow>
     Get cfg (Suc n) st tmsi = Some (Inl ErrSessionNotFound, st)"
  by simp

section \<open>Effect of the commands on records and index sets\<close>

lemma fst_pipe_Exec_Cons:
  "fst (pipe_Exec st (c # cs)) = fst (pipe_Exec (fst (exec_cmd st c)) cs)"
  by (simp split: prod.splits)

lemma snd_pipe_Exec_Cons:
  "snd (pipe_Exec st (c # cs)) = snd (exec_cmd st c) # snd (pipe_Exec (fst (exec_cmd st c)) cs)"
  by (simp split: prod.splits)

lemma well_typedD_string:
  "well_typed st \<Longrightarrow> st (SessionKey t) = Some (v, ttl) \<Longrightarrow> \<exists>s. v = RString s"
  unfolding well_typed_def by blast

lemma well_typedD_set:
  "well_typed st \<Longrightarrow> st k = Some (RString s, ttl) \<Longrightarrow> \<exists>t. k = SessionKey t"
  unfolding well_typed_def by blast

lemma index_members_SessionKey:
  "well_typed st \<Longrightarrow> index_members st (SessionKey t) = []"
  by (auto simp: index_members_def split: option.splits rvalue.splits dest: well_typedD_string)

text \<open>\<open>SET\<close> on a session key.\<close>

lemma Set_well_typed:
  "well_typed st \<Longrightarrow> well_typed (fst (exec_cmd st (CmdSet (SessionKey t) v d)))"
  unfolding well_typed_def by auto

lemma Set_record_of:
  "record_of (fst (exec_cmd st (CmdSet (SessionKey t) v d))) t' =
     (if t' = t then Some v else record_of st t')"
  by (simp add: record_of_def)

lemma Set_index_members:
  "well_typed st \<Longrightarrow>
   index_members (fst (exec_cmd st (CmdSet (SessionKey t) v d))) k = index_members st k"
  using index_members_SessionKey[of st t]
  by (auto simp: index_members_def)

lemma Set_reply: "snd (exec_cmd st (CmdSet k v d)) = StatusOK"
  by simp

text \<open>\<open>SADD\<close> on a key that is not a session key.\<close>

lemma SAdd_cases:
  assumes "well_typed st" and "\<And>t. k \<noteq> SessionKey t"
  obtains "st k = None" | ms ttl where "st k = Some (RSet ms, ttl)"
proof (cases "st k")
  case None then show ?thesis using that by blast
next
  case (Some e)
  obtain v ttl where e: "e = (v, ttl)" by (cases e)
  show ?thesis
  proof (cases v)
    case (RString s)
    with Some e assms show ?thesis by (auto dest: well_typedD_set)
  next
    case (RSet ms)
    with Some e show ?thesis using that by blast
  qed
qed

lemma SAdd_well_typed:
  assumes "well_typed st" and "\<And>t. k \<noteq> SessionKey t"
  shows "well_typed (fst (exec_cmd st (CmdSAdd k m)))"
  using assms(1,2)
  by (rule SAdd_cases) (use assms in \<open>auto simp: well_typed_def\<close>)

lemma SAdd_record_of:
  assumes "well_typed st" and "\<And>t. k \<noteq> SessionKey t"
  shows "record_of (fst (exec_cmd st (CmdSAdd k m))) t' = record_of st t'"
  using assms(1,2)
  by (rule SAdd_cases) (use assms in \<open>auto simp: record_of_def\<close>)

lemma SAdd_index_members:
  assumes "well_typed st" and "\<And>t. k \<noteq> SessionKey t"
  shows "set (index_members (fst (exec_cmd st (CmdSAdd k m))) k') =
     (if k' = k then insert m (set (index_members st k)) else set (index_members st k'))"
  using assms(1,2)
  by (rule SAdd_cases) (auto simp: index_members_def)

lemma SAdd_reply:
  assumes "well_typed st" and "\<And>t. k \<noteq> SessionKey t"
  shows "\<not> is_err (snd (exec_cmd st (CmdSAdd k m)))"
  using assms(1,2)
  by (rule SAdd_cases) (auto simp: is_err_def)

text \<open>\<open>EXPIRE\<close> with a positive time-to-live.\<close>

lemma Expire_well_typed:
  "well_typed st \<Longrightarrow> 0 < d \<Longrightarrow> well_typed (fst (exec_cmd st (CmdExpire k d)))"
  unfolding well_typed_def by (auto split: option.splits)

lemma Expire_record_of:
  "0 < d \<Longrightarrow> record_of (fst (exec_cmd st (CmdExpire k d))) t = record_of st t"
  by (auto simp: record_of_def split: option.splits)

lemma Expire_index_members:
  "0 < d \<Longrightarrow> index_members (fst (exec_cmd st (CmdExpire k d))) k' = index_members st k'"
  by (auto simp: index_members_def split: option.splits)

lemma Expire_reply: "\<not> is_err (snd (exec_cmd st (CmdExpire k d)))"
  by (auto simp: is_err_def split: option.splits)

text \<open>\<open>SREM\<close> on a key that is not a session key.\<close>

lemma removeAll_NilD: "removeAll m ms = [] \<Longrightarrow> x \<in> set ms \<Longrightarrow> x = m"
  using set_removeAll[of m ms] by auto

lemma SRem_well_typed:
  assumes "well_typed st" and "\<And>t. k \<noteq> SessionKey t"
  shows "well_typed (fst (exec_cmd st (CmdSRem k m)))"
  using assms(1,2)
  by (rule SAdd_cases) (use assms in \<open>auto simp: well_typed_def\<close>)

lemma SRem_record_of:
  assumes "well_typed st" and "\<And>t. k \<noteq> SessionKey t"
  shows "record_of (fst (exec_cmd st (CmdSRem k m))) t' = record_of st t'"
  using assms(1,2)
  by (rule SAdd_cases) (use assms in \<open>auto simp: record_of_def\<close>)

lemma SRem_index_members:
  assumes "well_typed st" and "\<And>t. k \<noteq> SessionKey t"
  shows "set (index_members (fst (exec_cmd st (CmdSRem k m))) k') =
     (if k' = k then set (index_members st k) - {m} else set (index_members st k'))"
  using assms(1,2)
  by (rule SAdd_cases) (auto simp: index_members_def dest: removeAll_NilD)

lemma SRem_reply:
  assumes "well_typed st" and "\<And>t. k \<noteq> SessionKey t"
  shows "\<not> is_err (snd (exec_cmd st (CmdSRem k m)))"
  using assms(1,2)
  by (rule SAdd_cases) (auto simp: is_err_def)

text \<open>\<open>DEL\<close> of a session key.\<close>

lemma Del_well_typed:
  "well_typed st \<Longrightarrow> well_typed (fst (exec_cmd st (CmdDel k)))"
  unfolding well_typed_def by auto

lemma Del_record_of:
  "record_of (fst (exec_cmd st (CmdDel (SessionKey t)))) t' =
     (if t' = t then None else record_of st t')"
  by (simp add: record_of_def)

lemma Del_index_members:
  "well_typed st \<Longrightarrow>
   index_members (fst (exec_cmd st (CmdDel (SessionKey t)))) k = index_members st k"
  using index_members_SessionKey[of st t]
  by (auto simp: index_members_def)

lemma Del_reply: "\<not> is_err (snd (exec_cmd st (CmdDel k)))"
  by (simp add: is_err_def)

section \<open>Effect of Create\<close>

lemma pipe_Exec_Nil_fst [simp]: "fst (pipe_Exec st []) = st"
  by simp

lemma pipe_Exec_Nil_snd [simp]: "snd (pipe_Exec st []) = []"
  by simp

lemma Create_invalid:
  "validateSession sp = Some err \<Longrightarrow> Create cfg now1 now2 st sp = (Inl err, st)"
  by (simp add: Create_def)

lemma validateSession_NoneD:
  "validateSession sp = None \<Longrightarrow> \<exists>s0. sp = Some s0 \<and> TMSI s0 \<noteq> [] \<and> IMSI s0 \<noteq> [] \<and> MSISDN s0 \<noteq> []"
  by (cases sp) (auto split: if_splits)

lemma Create_effect:
  fixes s0 :: Session and now1 now2 :: time
  assumes wt: "well_typed st" and valid: "validateSession (Some s0) = None"
    and ttl: "0 < DefaultTTL cfg"
  defines "session \<equiv> (if IsZero (AttachTime s0) then s0\<lparr>AttachTime := now1\<rparr> else s0)\<lparr>LastUpdate := now2\<rparr>"
  shows "fst (Create cfg now1 now2 st (Some s0)) = Inr session"
    and "well_typed (snd (Create cfg now1 now2 st (Some s0)))"
    and "\<And>t. record_of (snd (Create cfg now1 now2 st (Some s0))) t =
           (if t = TMSI s0 then Some session else record_of st t)"
    and "\<And>k. set (index_members (snd (Create cfg now1 now2 st (Some s0))) k) =
           set (index_members st k)
           \<union> (if k = IMSIIndexKey (IMSI s0) then {TMSI s0} else {})
           \<union> (if k = MSISDNIndexKey (MSISDN s0) then {TMSI s0} else {})"
proof -
  define d where "d = DefaultTTL cfg"
  define c1 where "c1 = CmdSet (SessionKey (TMSI s0)) session d"
  define c2 where "c2 = CmdSAdd (IMSIIndexKey (IMSI s0)) (TMSI s0)"
  define c3 where "c3 = CmdExpire (IMSIIndexKey (IMSI s0)) d"
  define c4 where "c4 = CmdSAdd (MSISDNIndexKey (MSISDN s0)) (TMSI s0)"
  define c5 where "c5 = CmdExpire (MSISDNIndexKey (MSISDN s0)) d"
  define st1 where "st1 = fst (exec_cmd st c1)"
  define st2 where "st2 = fst (exec_cmd st1 c2)"
  define st3 where "st3 = fst (exec_cmd st2 c3)"
  define st4 where "st4 = fst (exec_cmd st3 c4)"
  define st5 where "st5 = fst (exec_cmd st4 c5)"
  have ids: "TMSI session = TMSI s0" "IMSI session = IMSI s0" "MSISDN session = MSISDN s0"
    by (simp_all add: session_def)
  have d: "0 < d" using ttl by (simp add: d_def)
  have wt1: "well_typed st1" unfolding st1_def c1_def by (rule Set_well_typed[OF wt])
  have wt2: "well_typed st2" unfolding st2_def c2_def by (rule SAdd_well_typed[OF wt1]) simp
  have wt3: "well_typed st3" unfolding st3_def c3_def by (rule Expire_well_typed[OF wt2 d])
  have wt4: "well_typed st4" unfolding st4_def c4_def by (rule SAdd_well_typed[OF wt3]) simp
  have wt5: "well_typed st5" unfolding st5_def c5_def by (rule Expire_well_typed[OF wt4 d])
  have r1: "\<not> is_err (snd (exec_cmd st c1))" by (simp add: c1_def is_err_def)
  have r2: "\<not> is_err (snd (exec_cmd st1 c2))" unfolding c2_def by (rule SAdd_reply[OF wt1]) simp
  have r3: "\<not> is_err (snd (exec_cmd st2 c3))" unfolding c3_def by (rule Expire_reply)
  have r4: "\<not> is_err (snd (exec_cmd st3 c4))" unfolding c4_def by (rule SAdd_reply[OF wt3]) simp
  have r5: "\<not> is_err (snd (exec_cmd st4 c5))" unfolding c5_def by (rule Expire_reply)
  have pipe_fst: "fst (pipe_Exec st [c1, c2, c3, c4, c5]) = st5"
    by (simp only: fst_pipe_Exec_Cons pipe_Exec_Nil_fst st1_def st2_def st3_def st4_def st5_def)
  have pipe_snd: "cmdsFirstErr (snd (pipe_Exec st [c1, c2, c3, c4, c5])) = None"
    using r1 r2 r3 r4 r5
    by (simp only: snd_pipe_Exec_Cons pipe_Exec_Nil_snd cmdsFirstErr.simps
          st1_def[symmetric] st2_def[symmetric] st3_def[symmetric] st4_def[symmetric] if_False)
  have Create_eq: "Create cfg now1 now2 st (Some s0) = (Inr session, st5)"
  proof -
    have "Create cfg now1 now2 st (Some s0) =
      (case cmdsFirstErr (snd (pipe_Exec st [c1, c2, c3, c4, c5])) of
         Some _ \<Rightarrow> (Inl (Errorf ''failed to create session''), fst (pipe_Exec st [c1, c2, c3, c4, c5]))
       | None \<Rightarrow> (Inr session, fst (pipe_Exec st [c1, c2, c3, c4, c5])))"
      using valid
      by (simp only: Create_def option.case Let_def session_def[symmetric] ids
            c1_def c2_def c3_def c4_def c5_def d_def case_prod_beta)
    then show ?thesis by (simp only: pipe_fst pipe_snd option.case)
  qed
  show "fst (Create cfg now1 now2 st (Some s0)) = Inr session" by (simp add: Create_eq)
  show "well_typed (snd (Create cfg now1 now2 st (Some s0)))" by (simp add: Create_eq wt5)
  show "record_of (snd (Create cfg now1 now2 st (Some s0))) t =
           (if t = TMSI s0 then Some session else record_of st t)" for t
  proof -
    have "record_of st5 t = record_of st4 t"
      unfolding st5_def c5_def by (rule Expire_record_of[OF d])
    also have "\<dots> = record_of st3 t"
      unfolding st4_def c4_def by (rule SAdd_record_of[OF wt3]) simp
    also have "\<dots> = record_of st2 t"
      unfolding st3_def c3_def by (rule Expire_record_of[OF d])
    also have "\<dots> = record_of st1 t"
      unfolding st2_def c2_def by (rule SAdd_record_of[OF wt1]) simp
    also have "\<dots> = (if t = TMSI s0 then Some session else record_of st t)"
      unfolding st1_def c1_def by (rule Set_record_of)
    finally show ?thesis by (simp add: Create_eq)
  qed
  show "set (index_members (snd (Create cfg now1 now2 st (Some s0))) k) =
           set (index_members st k)
           \<union> (if k = IMSIIndexKey (IMSI s0) then {TMSI s0} else {})
           \<union> (if k = MSISDNIndexKey (MSISDN s0) then {TMSI s0} else {})" for k
  proof -
    have m1: "index_members st1 k = index_members st k" for k
      unfolding st1_def c1_def by (rule Set_index_members[OF wt])
    have m2: "set (index_members st2 k) =
        (if k = IMSIIndexKey (IMSI s0) then insert (TMSI s0) (set (index_members st1 (IMSIIndexKey (IMSI s0))))
         else set (index_members st1 k))" for k
      unfolding st2_def c2_def by (rule SAdd_index_members[OF wt1]) simp
    have m3: "index_members st3 k = index_members st2 k" for k
      unfolding st3_def c3_def by (rule Expire_index_members[OF d])
    have m4: "set (index_members st4 k) =
        (if k = MSISDNIndexKey (MSISDN s0) then insert (TMSI s0) (set (index_members st3 (MSISDNIndexKey (MSISDN s0))))
         else set (index_members st3 k))" for k
      unfolding st4_def c4_def by (rule SAdd_index_members[OF wt3]) simp
    have m5: "index_members st5 k = index_members st4 k" for k
      unfolding st5_def c5_def by (rule Expire_index_members[OF d])
    show ?thesis
      by (auto simp: Create_eq m5 m4 m3 m2 m1)
  qed
qed

section \<open>Create keeps the index invariant\<close>

lemma well_typed_empty: "well_typed Map.empty"
  by (simp add: well_typed_def)

lemma index_inv_empty: "index_inv Map.empty"
  by (simp add: index_inv_def record_of_def)

lemma Create_preserves:
  assumes ttl: "0 < DefaultTTL cfg" and wt: "well_typed st" and inv: "index_inv st"
  shows "well_typed (snd (Create cfg now1 now2 st sp)) \<and> index_inv (snd (Create cfg now1 now2 st sp))"
proof (cases "validateSession sp")
  case (Some err)
  with wt inv show ?thesis by (simp add: Create_invalid)
next
  case None
  then obtain s0 where sp: "sp = Some s0" using validateSession_NoneD by blast
  note eff = Create_effect[OF wt None[unfolded sp] ttl, of now1 now2]
  let ?st' = "snd (Create cfg now1 now2 st (Some s0))"
  have "index_inv ?st'"
    unfolding index_inv_def
  proof (intro allI impI)
    fix tmsi s
    assume rec: "record_of ?st' tmsi = Some s"
    show "tmsi \<in> set (index_members ?st' (IMSIIndexKey (IMSI s))) \<and>
          tmsi \<in> set (index_members ?st' (MSISDNIndexKey (MSISDN s)))"
    proof (cases "tmsi = TMSI s0")
      case True
      with rec eff(3) have "IMSI s = IMSI s0" "MSISDN s = MSISDN s0" by auto
      with True show ?thesis by (simp add: eff(4))
    next
      case False
      with rec eff(3) have "record_of st tmsi = Some s" by simp
      with inv have "tmsi \<in> set (index_members st (IMSIIndexKey (IMSI s)))"
        "tmsi \<in> set (index_members st (MSISDNIndexKey (MSISDN s)))"
        by (simp_all add: index_inv_def)
      then show ?thesis by (simp add: eff(4))
    qed
  qed
  with eff(2) sp show ?thesis by simp
qed

section \<open>Calls that look a live record up\<close>

lemma validateSessionForUpdate_eq: "validateSessionForUpdate sp = validateSession sp"
  by (cases sp) simp_all

lemma validateSessionForCreation_NoneD:
  "validateSessionForCreation sp = None \<Longrightarrow> validateSession sp = None"
  by (cases sp) (auto split: if_splits)

lemma Update_live_diverges:
  assumes "validateSession (Some s') = None" and "record_of st (TMSI s') = Some s"
  shows "Update cfg now n st (Some s') = None"
proof -
  from assms(1) have ne: "TMSI s' \<noteq> []" by (auto split: if_splits)
  from assms(2) obtain ttl where "st (SessionKey (TMSI s')) = Some (RString s, ttl)"
    using record_of_SomeD by blast
  with ne have "Get cfg n st (TMSI s') = None" using Get_RenewTTL_live_diverge by blast
  with assms(1) show ?thesis by (simp add: Update_def)
qed

section \<open>Queries on a well-typed store\<close>

lemma set_map_filter_Some:
  "set (List.map_filter f xs) = {y. \<exists>x. x \<in> set xs \<and> f x = Some y}"
  by (induction xs) (auto split: option.splits)

lemma pipe_Exec_Gets:
  "pipe_Exec st (map (\<lambda>tmsi. CmdGet (SessionKey tmsi)) ts) =
     (st, map (\<lambda>tmsi. snd (exec_cmd st (CmdGet (SessionKey tmsi)))) ts)"
  by (induction ts) simp_all

lemma Get_reply_well_typed:
  assumes "well_typed st"
  shows "snd (exec_cmd st (CmdGet (SessionKey t))) =
     (case record_of st t of None \<Rightarrow> RedisNil | Some s \<Rightarrow> BulkReply s)"
proof (cases "st (SessionKey t)")
  case None
  then show ?thesis by (simp add: record_of_def)
next
  case (Some e)
  obtain v ttl where e: "e = (v, ttl)" by (cases e)
  with Some assms obtain s where "v = RString s" using well_typedD_string by blast
  with Some e show ?thesis by (simp add: record_of_def)
qed

lemma collect_sessions_replies:
  "collect_sessions (map (\<lambda>t. case record_of st t of None \<Rightarrow> RedisNil | Some s \<Rightarrow> BulkReply s) ts) ts acc =
     Inr (acc @ List.map_filter (record_of st) ts)"
proof (induction ts arbitrary: acc)
  case Nil
  show ?case by simp
next
  case (Cons t ts)
  show ?case
    by (cases "record_of st t") (simp_all add: Cons.IH)
qed

lemma cmdsFirstErr_replies:
  "cmdsFirstErr (map (\<lambda>t. case record_of st t of None \<Rightarrow> RedisNil | Some s \<Rightarrow> BulkReply s) ts) \<noteq> Some WrongType"
  by (induction ts) (auto simp: is_err_def split: option.splits)

lemma QueryByMultiple_well_typed:
  assumes "well_typed st"
  shows "QueryByMultiple st ts = Inr (List.map_filter (record_of st) ts)"
proof (cases "ts = []")
  case True
  then show ?thesis by (simp add: QueryByMultiple_def)
next
  case False
  let ?rs = "map (\<lambda>t. case record_of st t of None \<Rightarrow> RedisNil | Some s \<Rightarrow> BulkReply s) ts"
  have p: "pipe_Exec st (map (\<lambda>tmsi. CmdGet (SessionKey tmsi)) ts) = (st, ?rs)"
    by (simp only: pipe_Exec_Gets Get_reply_well_typed[OF assms])
  have "QueryByMultiple st ts = collect_sessions ?rs ts []"
    using False cmdsFirstErr_replies[of st ts]
    by (cases "cmdsFirstErr ?rs"; cases "the (cmdsFirstErr ?rs)")
       (simp_all add: QueryByMultiple_def p)
  then show ?thesis by (simp add: collect_sessions_replies)
qed

lemma SMembers_well_typed:
  assumes "well_typed st" and "\<And>t. k \<noteq> SessionKey t"
  shows "exec_cmd st (CmdSMembers k) = (st, MembersReply (index_members st k))"
  using assms(1,2)
  by (rule SAdd_cases) (simp_all add: index_members_def)

lemma QueryByIMSI_well_typed:
  assumes "imsi \<noteq> []" and "well_typed st"
  shows "QueryByIMSI st imsi = Inr (List.map_filter (record_of st) (index_members st (IMSIIndexKey imsi)))"
proof -
  have "exec_cmd st (CmdSMembers (IMSIIndexKey imsi)) =
      (st, MembersReply (index_members st (IMSIIndexKey imsi)))"
    by (rule SMembers_well_typed[OF assms(2)]) simp
  then show ?thesis
    using assms(1) QueryByMultiple_well_typed[OF assms(2)]
    by (simp add: QueryByIMSI_def del: exec_cmd.simps)
qed

section \<open>The pipelines behind the lookup\<close>

text \<open>
  On a missing record the lookup fails with \<open>NotFound\<close> and nothing is sent; the
  detached cleanup gives up.
\<close>

lemma RenewTTL_absent:
  "tmsi \<noteq> [] \<Longrightarrow> st (SessionKey tmsi) = None \<Longrightarrow>
     RenewTTL cfg (Suc (Suc n)) st tmsi = Some (Inl ErrSessionNotFound, st)"
  by simp

lemma Delete_absent:
  "tmsi \<noteq> [] \<Longrightarrow> st (SessionKey tmsi) = None \<Longrightarrow>
     Delete cfg (Suc n) st tmsi = Some (Inl ErrSessionNotFound, st)"
  by (simp add: Delete_def)

lemma Update_absent:
  "validateSession (Some s) = None \<Longrightarrow> st (SessionKey (TMSI s)) = None \<Longrightarrow>
     Update cfg now (Suc n) st (Some s) = Some (Inl ErrSessionNotFound, st)"
  by (auto simp: Update_def split: if_splits)

lemma cleanupExpiredIndex_absent:
  "tmsi \<noteq> [] \<Longrightarrow> st (SessionKey tmsi) = None \<Longrightarrow>
     cleanupExpiredIndex cfg (Suc n) st tmsi = Some st"
  by (simp add: cleanupExpiredIndex_def)

text \<open>The index keys are not session keys.\<close>

lemmas SAdd_IMSI = SAdd_well_typed [OF _ keys_distinct(3)] SAdd_record_of [OF _ keys_distinct(3)]
  SAdd_index_members [OF _ keys_distinct(3)] SAdd_reply [OF _ keys_distinct(3)]
lemmas SAdd_MSISDN = SAdd_well_typed [OF _ keys_distinct(4)] SAdd_record_of [OF _ keys_distinct(4)]
  SAdd_index_members [OF _ keys_distinct(4)] SAdd_reply [OF _ keys_distinct(4)]
lemmas SRem_IMSI = SRem_well_typed [OF _ keys_distinct(3)] SRem_record_of [OF _ keys_distinct(3)]
  SRem_index_members [OF _ keys_distinct(3)] SRem_reply [OF _ keys_distinct(3)]
lemmas SRem_MSISDN = SRem_well_typed [OF _ keys_distinct(4)] SRem_record_of [OF _ keys_distinct(4)]
  SRem_index_members [OF _ keys_distinct(4)] SRem_reply [OF _ keys_distinct(4)]

lemma Set_not_err: "\<not> is_err (snd (exec_cmd st (CmdSet k v d)))"
  by (simp add: is_err_def)

lemmas cmd_effects =
  fst_pipe_Exec_Cons snd_pipe_Exec_Cons
  Set_well_typed Set_record_of Set_index_members Set_not_err
  SAdd_IMSI SAdd_MSISDN SRem_IMSI SRem_MSISDN
  Expire_well_typed Expire_record_of Expire_index_members Expire_reply
  Del_well_typed Del_record_of Del_index_members Del_reply

text \<open>
  What each pipeline does to a well-typed store, were the lookup before it to return the
  stored record.
\<close>

lemma RenewTTL_pipeline_effect:
  assumes "well_typed st" and "0 < DefaultTTL cfg"
  shows "fst (RenewTTL_pipeline cfg st tmsi session) = Inr ()"
    and "well_typed (snd (RenewTTL_pipeline cfg st tmsi session))"
    and "record_of (snd (RenewTTL_pipeline cfg st tmsi session)) t = record_of st t"
    and "index_members (snd (RenewTTL_pipeline cfg st tmsi session)) k = index_members st k"
  using assms
  by (simp_all add: RenewTTL_pipeline_def case_prod_beta cmd_effects
        del: exec_cmd.simps pipe_Exec.simps)

lemma Delete_pipeline_effect:
  assumes "well_typed st"
  shows "fst (Delete_pipeline st tmsi session) = Inr ()"
    and "well_typed (snd (Delete_pipeline st tmsi session))"
    and "record_of (snd (Delete_pipeline st tmsi session)) t =
           (if t = tmsi then None else record_of st t)"
    and "set (index_members (snd (Delete_pipeline st tmsi session)) k) =
           (if k = IMSIIndexKey (IMSI session) \<or> k = MSISDNIndexKey (MSISDN session)
            then set (index_members st k) - {tmsi} else set (index_members st k))"
  using assms
  by (simp_all add: Delete_pipeline_def case_prod_beta cmd_effects
        del: exec_cmd.simps pipe_Exec.simps)

lemma Update_pipeline_effect:
  fixes s0 existing :: Session and now :: time
  assumes wt: "well_typed st" and ttl: "0 < DefaultTTL cfg"
  defines "session \<equiv> s0\<lparr>LastUpdate := now, AttachTime := AttachTime existing\<rparr>"
  defines "st' \<equiv> snd (Update_pipeline cfg now st existing s0)"
  shows "fst (Update_pipeline cfg now st existing s0) = Inr session"
    and "well_typed st'"
    and "record_of st' t = (if t = TMSI s0 then Some session else record_of st t)"
    and "set (index_members st' k) =
           (if IMSI existing \<noteq> IMSI s0 \<and> k = IMSIIndexKey (IMSI s0)
              then insert (TMSI s0) (set (index_members st k))
            else if IMSI existing \<noteq> IMSI s0 \<and> k = IMSIIndexKey (IMSI existing)
              then set (index_members st k) - {TMSI s0}
            else if MSISDN existing \<noteq> MSISDN s0 \<and> k = MSISDNIndexKey (MSISDN s0)
              then insert (TMSI s0) (set (index_members st k))
            else if MSISDN existing \<noteq> MSISDN s0 \<and> k = MSISDNIndexKey (MSISDN existing)
              then set (index_members st k) - {TMSI s0}
            else set (index_members st k))"
proof -
  have ids: "TMSI session = TMSI s0" "IMSI session = IMSI s0" "MSISDN session = MSISDN s0"
    by (simp_all add: session_def)
  show "fst (Update_pipeline cfg now st existing s0) = Inr session"
    using wt ttl
    by (simp add: Update_pipeline_def Let_def session_def[symmetric] ids case_prod_beta cmd_effects
          del: exec_cmd.simps pipe_Exec.simps)
  show "well_typed st'"
    using wt ttl unfolding st'_def
    by (simp add: Update_pipeline_def Let_def session_def[symmetric] ids case_prod_beta cmd_effects
          del: exec_cmd.simps pipe_Exec.simps)
  show "record_of st' t = (if t = TMSI s0 then Some session else record_of st t)"
    using wt ttl unfolding st'_def
    by (simp add: Update_pipeline_def Let_def session_def[symmetric] ids case_prod_beta cmd_effects
          del: exec_cmd.simps pipe_Exec.simps)
  show "set (index_members st' k) =
           (if IMSI existing \<noteq> IMSI s0 \<and> k = IMSIIndexKey (IMSI s0)
              then insert (TMSI s0) (set (index_members st k))
            else if IMSI existing \<noteq> IMSI s0 \<and> k = IMSIIndexKey (IMSI existing)
              then set (index_members st k) - {TMSI s0}
            else if MSISDN existing \<noteq> MSISDN s0 \<and> k = MSISDNIndexKey (MSISDN s0)
              then insert (TMSI s0) (set (index_members st k))
            else if MSISDN existing \<noteq> MSISDN s0 \<and> k = MSISDNIndexKey (MSISDN existing)
              then set (index_members st k) - {TMSI s0}
            else set (index_members st k))"
    using wt ttl unfolding st'_def
    by (simp add: Update_pipeline_def Let_def session_def[symmetric] ids case_prod_beta cmd_effects
          del: exec_cmd.simps pipe_Exec.simps)
qed

lemma Expire_values:
  "0 < d \<Longrightarrow> map_option fst (fst (exec_cmd st (CmdExpire k d)) k') = map_option fst (st k')"
  by (auto split: option.splits)

lemma RenewTTL_pipeline_values:
  "0 < DefaultTTL cfg \<Longrightarrow>
     map_option fst (snd (RenewTTL_pipeline cfg st tmsi session) k) = map_option fst (st k)"
  by (simp add: RenewTTL_pipeline_def case_prod_beta fst_pipe_Exec_Cons Expire_values
        del: exec_cmd.simps pipe_Exec.simps split: option.splits)

lemma RenewTTL_pipeline_preserves:
  assumes "well_typed st" and "0 < DefaultTTL cfg" and "index_inv st"
  shows "index_inv (snd (RenewTTL_pipeline cfg st tmsi session))"
  using assms(3) unfolding index_inv_def
  by (simp add: RenewTTL_pipeline_effect[OF assms(1,2)])

lemma Delete_pipeline_preserves:
  assumes wt: "well_typed st" and inv: "index_inv st"
  shows "index_inv (snd (Delete_pipeline st tmsi session))"
  unfolding index_inv_def
proof (intro allI impI)
  fix t s
  let ?st' = "snd (Delete_pipeline st tmsi session)"
  note eff = Delete_pipeline_effect[OF wt, of tmsi session]
  assume rec: "record_of ?st' t = Some s"
  then have ne: "t \<noteq> tmsi" and "record_of st t = Some s"
    by (auto simp: eff(3) split: if_splits)
  with inv have "t \<in> set (index_members st (IMSIIndexKey (IMSI s)))"
    "t \<in> set (index_members st (MSISDNIndexKey (MSISDN s)))"
    by (simp_all add: index_inv_def)
  with ne show "t \<in> set (index_members ?st' (IMSIIndexKey (IMSI s))) \<and>
        t \<in> set (index_members ?st' (MSISDNIndexKey (MSISDN s)))"
    by (auto simp: eff(4))
qed

lemma Delete_pipeline_removes:
  assumes "well_typed st"
  shows "record_of (snd (Delete_pipeline st tmsi session)) tmsi = None"
    and "tmsi \<notin> set (index_members (snd (Delete_pipeline st tmsi session)) (IMSIIndexKey (IMSI session)))"
    and "tmsi \<notin> set (index_members (snd (Delete_pipeline st tmsi session)) (MSISDNIndexKey (MSISDN session)))"
  by (simp_all add: Delete_pipeline_effect[OF assms])

lemma Update_pipeline_preserves:
  assumes wt: "well_typed st" and ttl: "0 < DefaultTTL cfg" and inv: "index_inv st"
    and live: "record_of st (TMSI s0) = Some existing"
  shows "index_inv (snd (Update_pipeline cfg now st existing s0))"
  unfolding index_inv_def
proof (intro allI impI)
  fix tmsi s
  let ?st' = "snd (Update_pipeline cfg now st existing s0)"
  note eff = Update_pipeline_effect[OF wt ttl, of now existing s0]
  assume rec: "record_of ?st' tmsi = Some s"
  show "tmsi \<in> set (index_members ?st' (IMSIIndexKey (IMSI s))) \<and>
        tmsi \<in> set (index_members ?st' (MSISDNIndexKey (MSISDN s)))"
  proof (cases "tmsi = TMSI s0")
    case True
    with rec have s: "IMSI s = IMSI s0" "MSISDN s = MSISDN s0" by (auto simp: eff(3))
    from inv live have "TMSI s0 \<in> set (index_members st (IMSIIndexKey (IMSI existing)))"
      "TMSI s0 \<in> set (index_members st (MSISDNIndexKey (MSISDN existing)))"
      by (simp_all add: index_inv_def)
    with True s show ?thesis by (auto simp: eff(4))
  next
    case False
    with rec have "record_of st tmsi = Some s" by (simp add: eff(3))
    with inv have "tmsi \<in> set (index_members st (IMSIIndexKey (IMSI s)))"
      "tmsi \<in> set (index_members st (MSISDNIndexKey (MSISDN s)))"
      by (simp_all add: index_inv_def)
    with False show ?thesis by (auto simp: eff(4))
  qed
qed

lemma Update_pipeline_moves_IMSI:
  assumes "well_typed st" and "0 < DefaultTTL cfg" and "IMSI existing \<noteq> IMSI s0"
  shows "TMSI s0 \<notin> set (index_members (snd (Update_pipeline cfg now st existing s0)) (IMSIIndexKey (IMSI existing)))"
    and "TMSI s0 \<in> set (index_members (snd (Update_pipeline cfg now st existing s0)) (IMSIIndexKey (IMSI s0)))"
  using assms(3) by (simp_all add: Update_pipeline_effect[OF assms(1,2)])

section \<open>The example store\<close>

lemma created_store_eq:
  "created_store =
     [SessionKey ''12345678'' \<mapsto>
        (RString (test_session\<lparr>AttachTime := 1000, LastUpdate := 1001\<rparr>), Some 1800000000000),
      IMSIIndexKey ''123456789012345'' \<mapsto> (RSet [''12345678''], Some 1800000000000),
      MSISDNIndexKey ''1234567890'' \<mapsto> (RSet [''12345678''], Some 1800000000000)]"
  by (simp add: created_store_def Create_def test_config_def test_session_def IsZero_def
        is_err_def Let_def)

lemma record_of_created_store:
  "record_of created_store ''12345678'' = Some (test_session\<lparr>AttachTime := 1000, LastUpdate := 1001\<rparr>)"
  by (simp add: created_store_eq record_of_def)

lemma valid_test_session: "validateSession (Some test_session) = None"
  by (simp add: test_session_def)

lemma test_config_ttl: "0 < DefaultTTL test_config"
  by (simp add: test_config_def)

lemma well_typed_created_store: "well_typed created_store"
  unfolding created_store_def
  using Create_preserves [OF test_config_ttl well_typed_empty index_inv_empty] by blast

lemma overwritten_store_eq:
  "overwritten_store =
     [SessionKey ''12345678'' \<mapsto>
        (RString (moved_session\<lparr>AttachTime := 2000, LastUpdate := 2001\<rparr>), Some 1800000000000),
      IMSIIndexKey ''123456789012345'' \<mapsto> (RSet [''12345678''], Some 1800000000000),
      MSISDNIndexKey ''1234567890'' \<mapsto> (RSet [''12345678''], Some 1800000000000),
      IMSIIndexKey ''999999999999999'' \<mapsto> (RSet [''12345678''], Some 1800000000000)]"
  by (simp add: overwritten_store_def created_store_eq Create_def test_config_def
        moved_session_def test_session_def IsZero_def is_err_def Let_def fun_upd_twist)

lemma stale_store_eq:
  "stale_store =
     [IMSIIndexKey ''123456789012345'' \<mapsto> (RSet [''12345678'', ''87654321''], Some 1800000000000),
      MSISDNIndexKey ''1234567890'' \<mapsto> (RSet [''12345678''], Some 1800000000000),
      SessionKey ''87654321'' \<mapsto>
        (RString (second_session\<lparr>AttachTime := 2000, LastUpdate := 2001\<rparr>), Some 1800000000000),
      MSISDNIndexKey ''0987654321'' \<mapsto> (RSet [''87654321''], Some 1800000000000)]"
  by (simp add: stale_store_def created_store_eq Create_def test_config_def
        second_session_def test_session_def IsZero_def is_err_def Let_def fun_upd_twist)

lemma well_typed_stale_store: "well_typed stale_store"
proof -
  have h1: "0 < DefaultTTL test_config" by (simp add: test_config_def)
  have "well_typed created_store"
    unfolding created_store_def
    using Create_preserves [OF h1 well_typed_empty index_inv_empty] by blast
  moreover have "index_inv created_store"
    unfolding created_store_def
    using Create_preserves [OF h1 well_typed_empty index_inv_empty] by blast
  ultimately have "well_typed (snd (Create test_config 2000 2001 created_store (Some second_session)))"
    using Create_preserves [OF h1] by blast
  then show ?thesis unfolding stale_store_def by (rule Del_well_typed)
qed

section \<open>Expiry and the deadline invariant\<close>

lemma alive_empty [simp]: "alive now Map.empty = Map.empty"
  by (simp add: alive_def)

lemma alive_upd [simp]:
  "alive now (st(k \<mapsto> (v, e))) =
     (case e of Some d \<Rightarrow> if d < now then (alive now st)(k := None) else (alive now st)(k \<mapsto> (v, e))
              | None \<Rightarrow> (alive now st)(k \<mapsto> (v, e)))"
  by (auto simp: alive_def split: option.splits)








section \<open>Create on the store with a clock\<close>








section \<open>Renewal, deletion and the deadline invariant\<close>












section \<open>Calls that return on the store with a clock\<close>


















section \<open>The deadline invariant over the reached stores\<close>






section \<open>The example stores with a clock\<close>






section \<open>Claims\<close>

text \<open>
  C1. The claim: for every record that passes validation, \<open>Create\<close> and then \<open>Get\<close>
  with its TMSI returns a record equal to the input but for the two timestamps. The
  code: on a well-typed store with a validated configuration, \<open>Create\<close> of a valid
  record succeeds and stores the record with its timestamps set; the \<open>Get\<close> that
  follows does not return at any recursion depth.
\<close>

theorem C1_Create_then_Get_never_returns:
  assumes "0 < DefaultTTL cfg" and "well_typed st" and "validateSession (Some s) = None"
  shows "\<exists>s'. fst (Create cfg now1 now2 st (Some s)) = Inr s' \<and>
           record_of (snd (Create cfg now1 now2 st (Some s))) (TMSI s) = Some s' \<and>
           (\<forall>n. Get cfg n (snd (Create cfg now1 now2 st (Some s))) (TMSI s) = None)"
proof -
  note eff = Create_effect[OF assms(2,3,1), of now1 now2]
  let ?s' = "(if IsZero (AttachTime s) then s\<lparr>AttachTime := now1\<rparr> else s)\<lparr>LastUpdate := now2\<rparr>"
  let ?st' = "snd (Create cfg now1 now2 st (Some s))"
  have rec: "record_of ?st' (TMSI s) = Some ?s'" by (simp add: eff(3))
  from assms(3) have ne: "TMSI s \<noteq> []" by (auto split: if_splits)
  from rec obtain ttl where "?st' (SessionKey (TMSI s)) = Some (RString ?s', ttl)"
    using record_of_SomeD by blast
  with ne have "\<forall>n. Get cfg n ?st' (TMSI s) = None"
    using Get_RenewTTL_live_diverge by blast
  with eff(1) rec show ?thesis by blast
qed

theorem C1_Create_then_Get_never_returns_witness:
  "0 < DefaultTTL test_config \<and> well_typed Map.empty \<and>
   validateSession (Some test_session) = None \<and>
   (\<exists>s'. fst (Create test_config 1000 1001 Map.empty (Some test_session)) = Inr s' \<and>
      record_of created_store ''12345678'' = Some s' \<and>
      (\<forall>n. Get test_config n created_store ''12345678'' = None))"
proof -
  have h1: "0 < DefaultTTL test_config" by (simp add: test_config_def)
  have h3: "validateSession (Some test_session) = None" by (simp add: test_session_def)
  have t: "TMSI test_session = ''12345678''" by (simp add: test_session_def)
  show ?thesis
    using C1_Create_then_Get_never_returns [OF h1 well_typed_empty h3, of 1000 1001]
      h1 h3 well_typed_empty
    by (simp only: t created_store_def [symmetric] simp_thms)
qed




text \<open>
  C3. The claim: for every TMSI with a live record, \<open>Get\<close> terminates and returns the
  record, renewing the time-to-live on the side. The code: for every non-empty TMSI with
  a live record, \<open>Get\<close> does not return at any recursion depth, because its renewal
  calls \<open>Get\<close> again.
\<close>

theorem C3_Get_live_never_returns:
  "tmsi \<noteq> [] \<Longrightarrow> record_of st tmsi = Some s \<Longrightarrow> Get cfg n st tmsi = None"
  using Get_RenewTTL_live_diverge record_of_SomeD by blast

theorem C3_Get_live_never_returns_witness:
  "''12345678'' \<noteq> [] \<and>
   record_of created_store ''12345678'' =
     Some (test_session\<lparr>AttachTime := 1000, LastUpdate := 1001\<rparr>) \<and>
   Get test_config 1000 created_store ''12345678'' = None"
  using C3_Get_live_never_returns [of "''12345678''" created_store _ test_config 1000]
    record_of_created_store
  by simp

text \<open>
  C4. The claim: a second \<open>Create\<close> for a TMSI with a live record fails with
  \<open>AlreadyExists\<close>. The code: the repository's \<open>Create\<close> has no check for an existing
  record, so on a live TMSI it succeeds again and overwrites the record; the service's
  \<open>CreateSession\<close> does look the TMSI up first, with \<open>Get\<close>, and so does not return.
\<close>

theorem C4_second_Create_succeeds:
  assumes "0 < DefaultTTL cfg" and "well_typed st"
    and "validateSessionForCreation (Some s) = None"
    and "record_of st (TMSI s) = Some old"
  shows "(\<exists>s'. fst (Create cfg now1 now2 st (Some s)) = Inr s' \<and>
            record_of (snd (Create cfg now1 now2 st (Some s))) (TMSI s) = Some s') \<and>
         CreateSession cfg now1 now2 n st (Some s) = None"
proof -
  have v: "validateSession (Some s) = None"
    using assms(3) by (rule validateSessionForCreation_NoneD)
  note eff = Create_effect[OF assms(2) v assms(1), of now1 now2]
  from v have ne: "TMSI s \<noteq> []" by (auto split: if_splits)
  from assms(4) obtain ttl where "st (SessionKey (TMSI s)) = Some (RString old, ttl)"
    using record_of_SomeD by blast
  with ne have "Get cfg n st (TMSI s) = None" using Get_RenewTTL_live_diverge by blast
  with assms(3) have "CreateSession cfg now1 now2 n st (Some s) = None"
    by (simp add: CreateSession_def)
  with eff(1) eff(3) show ?thesis by simp
qed

theorem C4_second_Create_succeeds_witness:
  "0 < DefaultTTL test_config \<and> well_typed created_store \<and>
   validateSessionForCreation (Some test_session) = None \<and>
   record_of created_store (TMSI test_session) =
     Some (test_session\<lparr>AttachTime := 1000, LastUpdate := 1001\<rparr>) \<and>
   fst (Create test_config 2000 2001 created_store (Some test_session)) =
     Inr (test_session\<lparr>AttachTime := 2000, LastUpdate := 2001\<rparr>) \<and>
   CreateSession test_config 2000 2001 1000 created_store (Some test_session) = None"
proof -
  note h1 = test_config_ttl
  note h2 = well_typed_created_store
  have h3: "validateSessionForCreation (Some test_session) = None"
    by (simp add: test_session_def)
  have h4: "record_of created_store (TMSI test_session) =
     Some (test_session\<lparr>AttachTime := 1000, LastUpdate := 1001\<rparr>)"
    using record_of_created_store by (simp add: test_session_def)
  have e: "fst (Create test_config 2000 2001 created_store (Some test_session)) =
     Inr (test_session\<lparr>AttachTime := 2000, LastUpdate := 2001\<rparr>)"
    using Create_effect(1) [OF h2 valid_test_session h1, of 2000 2001]
    by (simp add: test_session_def IsZero_def)
  show ?thesis
    using C4_second_Create_succeeds [OF h1 h2 h3 h4, of 2000 2001 1000] h1 h2 h3 h4 e
    by simp
qed

text \<open>
  C5. The claim: a record whose TMSI, IMSI or MSISDN is empty or below the minimum
  length makes \<open>Create\<close> fail with a \<open>ValidationError\<close> naming the field, and \<open>Update\<close>
  fails under the same rules. Against it: a three-character IMSI passes the validation
  of \<open>UpdateSession\<close>, which then fails only because the record is missing, and makes
  \<open>CreateSession\<close> fail with a plain \<open>fmt.Errorf\<close> error, not a \<open>ValidationError\<close>.
\<close>

theorem C5_counterexample:
  "validateSessionForUpdate (Some short_imsi_session) = None \<and>
   UpdateSession test_config 2000 1 Map.empty (Some short_imsi_session) =
     Some (Inl ErrSessionNotFound, Map.empty) \<and>
   CreateSession test_config 1000 1001 1 Map.empty (Some short_imsi_session) =
     Some (Inl (Errorf ''IMSI must be at least 14 characters long''), Map.empty)"
  by (simp add: short_imsi_session_def test_session_def UpdateSession_def CreateSession_def)

text \<open>
  C5, amended. A record in which TMSI, IMSI or MSISDN is empty makes \<open>CreateSession\<close>,
  \<open>UpdateSession\<close> and the repository's \<open>Create\<close> and \<open>Update\<close> fail with the
  \<open>ValidationError\<close> of the first empty field, in the order TMSI, IMSI, MSISDN, and
  leaves the store as it was. A record whose three fields are non-empty but of which one
  is below its minimum length (TMSI 4, IMSI 14, MSISDN 10) makes \<open>CreateSession\<close> fail
  with an error built by \<open>fmt.Errorf\<close> whose message names the first such field, the
  store unchanged.
\<close>

theorem C5_validation:
  assumes "TMSI s = [] \<or> IMSI s = [] \<or> MSISDN s = [] \<or>
           length (TMSI s) < 4 \<or> length (IMSI s) < 14 \<or> length (MSISDN s) < 10"
  shows "\<exists>e. CreateSession cfg now1 now2 n st (Some s) = Some (Inl e, st) \<and>
           (if TMSI s = [] \<or> IMSI s = [] \<or> MSISDN s = []
            then e = (if TMSI s = [] then ErrInvalidTMSI
                      else if IMSI s = [] then ErrInvalidIMSI else ErrInvalidMSISDN) \<and>
                 UpdateSession cfg now n st (Some s) = Some (Inl e, st) \<and>
                 Create cfg now1 now2 st (Some s) = (Inl e, st) \<and>
                 Update cfg now n st (Some s) = Some (Inl e, st)
            else e = Errorf
                   (if length (TMSI s) < 4 then ''TMSI must be at least 4 characters long''
                    else if length (IMSI s) < 14 then ''IMSI must be at least 14 characters long''
                    else ''MSISDN must be at least 10 characters long''))"
  using assms
  by (auto simp: CreateSession_def UpdateSession_def Create_def Update_def)

theorem C5_validation_witness:
  "MSISDN (test_session\<lparr>MSISDN := []\<rparr>) = [] \<and>
   CreateSession test_config 1000 1001 0 created_store (Some (test_session\<lparr>MSISDN := []\<rparr>)) =
     Some (Inl ErrInvalidMSISDN, created_store) \<and>
   UpdateSession test_config 2000 0 created_store (Some (test_session\<lparr>MSISDN := []\<rparr>)) =
     Some (Inl ErrInvalidMSISDN, created_store) \<and>
   length (IMSI short_imsi_session) < 14 \<and>
   CreateSession test_config 1000 1001 0 created_store (Some short_imsi_session) =
     Some (Inl (Errorf ''IMSI must be at least 14 characters long''), created_store)"
proof -
  have a: "MSISDN (test_session\<lparr>MSISDN := []\<rparr>) = []" by simp
  have b: "length (IMSI short_imsi_session) < 14" by (simp add: short_imsi_session_def)
  have f: "TMSI (test_session\<lparr>MSISDN := []\<rparr>) \<noteq> []" "IMSI (test_session\<lparr>MSISDN := []\<rparr>) \<noteq> []"
    "TMSI short_imsi_session \<noteq> []" "IMSI short_imsi_session \<noteq> []"
    "MSISDN short_imsi_session \<noteq> []"
    by (simp_all add: short_imsi_session_def test_session_def)
  from C5_validation [of "test_session\<lparr>MSISDN := []\<rparr>" test_config 1000 1001 0 created_store 2000] a f
  have 1: "CreateSession test_config 1000 1001 0 created_store (Some (test_session\<lparr>MSISDN := []\<rparr>)) =
       Some (Inl ErrInvalidMSISDN, created_store) \<and>
     UpdateSession test_config 2000 0 created_store (Some (test_session\<lparr>MSISDN := []\<rparr>)) =
       Some (Inl ErrInvalidMSISDN, created_store)"
    by auto
  have g: "\<not> length (TMSI short_imsi_session) < 4"
    by (simp add: short_imsi_session_def test_session_def)
  from C5_validation [of short_imsi_session test_config 1000 1001 0 created_store 2000] b f g
  have 2: "CreateSession test_config 1000 1001 0 created_store (Some short_imsi_session) =
     Some (Inl (Errorf ''IMSI must be at least 14 characters long''), created_store)"
    by auto
  from 1 2 a b show ?thesis by blast
qed

text \<open>
  C6. The claim: \<open>QueryByIMSI\<close> returns exactly the live records whose IMSI is the one
  asked for. Against it: after a second \<open>Create\<close> for the same TMSI with another IMSI,
  the index set of the first IMSI still holds the TMSI, and the query for the first IMSI
  returns the record, whose IMSI is now the second one.
\<close>

theorem C6_counterexample:
  "QueryByIMSI overwritten_store ''123456789012345'' =
     Inr [moved_session\<lparr>AttachTime := 2000, LastUpdate := 2001\<rparr>] \<and>
   IMSI (moved_session\<lparr>AttachTime := 2000, LastUpdate := 2001\<rparr>) = ''999999999999999''"
  by (simp add: overwritten_store_eq QueryByIMSI_def QueryByMultiple_def is_err_def
        moved_session_def)

text \<open>
  C6, amended. For a non-empty IMSI and a well-typed store, \<open>QueryByIMSI\<close> returns
  without error the records of the TMSIs in the IMSI's index set, one for each TMSI whose
  record exists and none for a TMSI whose record is missing (so the empty sequence when
  no member has a record). When the store satisfies the index invariant, every live
  record whose IMSI is the one asked for is among them.
\<close>

theorem C6_QueryByIMSI:
  assumes "imsi \<noteq> []" and "well_typed st"
  shows "\<exists>rs. QueryByIMSI st imsi = Inr rs \<and>
           rs = List.map_filter (record_of st) (index_members st (IMSIIndexKey imsi)) \<and>
           set rs = {s. \<exists>t. t \<in> set (index_members st (IMSIIndexKey imsi)) \<and> record_of st t = Some s} \<and>
           (if index_inv st then {s. \<exists>t. record_of st t = Some s \<and> IMSI s = imsi} \<subseteq> set rs
            else True)"
proof -
  let ?rs = "List.map_filter (record_of st) (index_members st (IMSIIndexKey imsi))"
  have 1: "QueryByIMSI st imsi = Inr ?rs" by (rule QueryByIMSI_well_typed[OF assms])
  have 2: "set ?rs = {s. \<exists>t. t \<in> set (index_members st (IMSIIndexKey imsi)) \<and> record_of st t = Some s}"
    by (rule set_map_filter_Some)
  have 3: "{s. \<exists>t. record_of st t = Some s \<and> IMSI s = imsi} \<subseteq> set ?rs" if "index_inv st"
    using that unfolding 2 index_inv_def by blast
  from 1 2 3 show ?thesis by simp
qed

theorem C6_QueryByIMSI_witness:
  "''123456789012345'' \<noteq> [] \<and> well_typed stale_store \<and>
   index_members stale_store (IMSIIndexKey ''123456789012345'') = [''12345678'', ''87654321''] \<and>
   record_of stale_store ''12345678'' = None \<and>
   QueryByIMSI stale_store ''123456789012345'' =
     Inr [second_session\<lparr>AttachTime := 2000, LastUpdate := 2001\<rparr>]"
proof -
  have m: "index_members stale_store (IMSIIndexKey ''123456789012345'') = [''12345678'', ''87654321'']"
    by (simp add: stale_store_eq index_members_def)
  have r1: "record_of stale_store ''12345678'' = None"
    by (simp add: stale_store_eq record_of_def)
  have r2: "record_of stale_store ''87654321'' =
      Some (second_session\<lparr>AttachTime := 2000, LastUpdate := 2001\<rparr>)"
    by (simp add: stale_store_eq record_of_def)
  have ne: "''123456789012345'' \<noteq> []" by simp
  show ?thesis
    using C6_QueryByIMSI [OF ne well_typed_stale_store] m r1 r2 well_typed_stale_store
    by simp
qed

text \<open>
  C7. The claim: \<open>Delete\<close> fails with \<open>NotFound\<close> when there is no live record, and
  after a successful \<open>Delete\<close> the record and both index entries are gone. The code:
  \<open>Delete\<close> looks the record up with \<open>Get\<close> first, so for every non-empty TMSI with a
  live record it does not return at any recursion depth; no \<open>Delete\<close> succeeds.
\<close>

theorem C7_Delete_live_never_returns:
  "tmsi \<noteq> [] \<Longrightarrow> record_of st tmsi = Some s \<Longrightarrow> Delete cfg n st tmsi = None"
  using Get_RenewTTL_live_diverge[of tmsi st s _ cfg n] record_of_SomeD[of st tmsi s]
  by (auto simp: Delete_def)

theorem C7_Delete_live_never_returns_witness:
  "''12345678'' \<noteq> [] \<and>
   record_of created_store ''12345678'' =
     Some (test_session\<lparr>AttachTime := 1000, LastUpdate := 1001\<rparr>) \<and>
   Delete test_config 1000 created_store ''12345678'' = None"
  using C7_Delete_live_never_returns [of "''12345678''" created_store _ test_config 1000]
    record_of_created_store
  by simp

text \<open>
  C8. The claim: after a successful \<open>Update\<close> that changes the IMSI of a live record,
  the TMSI has moved from the old IMSI's index set to the new one's. The code: \<open>Update\<close>
  looks the record up with \<open>Get\<close> first, so an \<open>Update\<close> of a live record with another
  IMSI does not return at any recursion depth, and the index sets stay as they were.
\<close>

theorem C8_Update_changed_IMSI_never_returns:
  assumes "validateSession (Some s') = None" and "record_of st (TMSI s') = Some s"
    and "IMSI s' \<noteq> IMSI s"
  shows "Update cfg now n st (Some s') = None"
  using assms(1,2) by (rule Update_live_diverges)

theorem C8_Update_changed_IMSI_never_returns_witness:
  "validateSession (Some moved_session) = None \<and>
   record_of created_store (TMSI moved_session) =
     Some (test_session\<lparr>AttachTime := 1000, LastUpdate := 1001\<rparr>) \<and>
   IMSI moved_session \<noteq> IMSI (test_session\<lparr>AttachTime := 1000, LastUpdate := 1001\<rparr>) \<and>
   Update test_config 2000 1000 created_store (Some moved_session) = None"
proof -
  have h1: "validateSession (Some moved_session) = None"
    by (simp add: moved_session_def test_session_def)
  have h2: "record_of created_store (TMSI moved_session) =
     Some (test_session\<lparr>AttachTime := 1000, LastUpdate := 1001\<rparr>)"
    using record_of_created_store by (simp add: moved_session_def test_session_def)
  have h3: "IMSI moved_session \<noteq> IMSI (test_session\<lparr>AttachTime := 1000, LastUpdate := 1001\<rparr>)"
    by (simp add: moved_session_def test_session_def)
  show ?thesis
    using C8_Update_changed_IMSI_never_returns [OF h1 h2 h3, of test_config 2000 1000] h1 h2 h3
    by simp
qed

text \<open>
  C9. The claim: a successful \<open>Update\<close> of a live record keeps the stored attach time
  and sets a new last-update time, and \<open>Update\<close> fails with \<open>NotFound\<close> when there is
  no record. The code: for every valid input whose TMSI has a live record, neither the
  repository's \<open>Update\<close> nor the service's \<open>UpdateSession\<close> returns at any recursion
  depth, so the stored record is never rewritten.
\<close>

theorem C9_Update_live_never_returns:
  assumes "validateSession (Some s') = None" and "record_of st (TMSI s') = Some s"
  shows "Update cfg now n st (Some s') = None \<and> UpdateSession cfg now n st (Some s') = None"
proof -
  from assms(1) have ne: "TMSI s' \<noteq> []" by (auto split: if_splits)
  from assms(2) obtain ttl where "st (SessionKey (TMSI s')) = Some (RString s, ttl)"
    using record_of_SomeD by blast
  with ne have "Get cfg n st (TMSI s') = None" using Get_RenewTTL_live_diverge by blast
  with assms(1) have "UpdateSession cfg now n st (Some s') = None"
    by (simp add: UpdateSession_def validateSessionForUpdate_eq del: validateSession.simps)
  with Update_live_diverges[OF assms] show ?thesis by simp
qed

theorem C9_Update_live_never_returns_witness:
  "validateSession (Some (test_session\<lparr>GNBID := ''gNB002''\<rparr>)) = None \<and>
   record_of created_store (TMSI (test_session\<lparr>GNBID := ''gNB002''\<rparr>)) =
     Some (test_session\<lparr>AttachTime := 1000, LastUpdate := 1001\<rparr>) \<and>
   Update test_config 2000 1000 created_store (Some (test_session\<lparr>GNBID := ''gNB002''\<rparr>)) = None \<and>
   UpdateSession test_config 2000 1000 created_store (Some (test_session\<lparr>GNBID := ''gNB002''\<rparr>)) = None"
proof -
  have h1: "validateSession (Some (test_session\<lparr>GNBID := ''gNB002''\<rparr>)) = None"
    by (simp add: test_session_def)
  have h2: "record_of created_store (TMSI (test_session\<lparr>GNBID := ''gNB002''\<rparr>)) =
     Some (test_session\<lparr>AttachTime := 1000, LastUpdate := 1001\<rparr>)"
    using record_of_created_store by (simp add: test_session_def)
  show ?thesis
    using C9_Update_live_never_returns [OF h1 h2, of test_config 2000 1000] h1 h2
    by simp
qed

text \<open>
  C10. The claim: \<open>RenewTTL\<close> fails with \<open>NotFound\<close> when there is no live record, and
  on a live record it changes the expiry of the record and of its two index keys and
  nothing else. The code: \<open>RenewTTL\<close> looks the record up with \<open>Get\<close>, which calls
  \<open>RenewTTL\<close> again, so for every non-empty TMSI with a live record it does not return at
  any recursion depth and no expiry is renewed.
\<close>

theorem C10_RenewTTL_live_never_returns:
  "tmsi \<noteq> [] \<Longrightarrow> record_of st tmsi = Some s \<Longrightarrow> RenewTTL cfg n st tmsi = None"
  using Get_RenewTTL_live_diverge record_of_SomeD by blast

theorem C10_RenewTTL_live_never_returns_witness:
  "''12345678'' \<noteq> [] \<and>
   record_of created_store ''12345678'' =
     Some (test_session\<lparr>AttachTime := 1000, LastUpdate := 1001\<rparr>) \<and>
   RenewTTL test_config 1000 created_store ''12345678'' = None"
  using C10_RenewTTL_live_never_returns [of "''12345678''" created_store _ test_config 1000]
    record_of_created_store
  by simp

end
